theory Spec2Isabelle
  imports Main "HOL-Library.Word"
begin

unbundle bit_operations_syntax

section \<open>The FaderPort driver: data model\<close>

text \<open>
  The Python module \<open>faderport.py\<close> drives a Presonus FaderPort over MIDI. Python
  integers are unbounded, so every integer of the source is an \<open>int\<close> here; on \<open>int\<close>
  the operators \<open>push_bit\<close>, \<open>drop_bit\<close>, \<open>OR\<close> and \<open>AND\<close> are Python's
  \<open><<\<close>, \<open>>>\<close>, \<open>|\<close> and \<open>&\<close> (two's complement, unbounded). Strings are lists of
  characters; the case conversions below cover the ASCII letters, every other character
  is left alone and counts as uncased.
\<close>

datatype py_error = KeyError | IndexError | AttributeError

subsection \<open>Buttons\<close>

text \<open>\<open>Button = namedtuple('Button', ['name', 'press', 'light'])\<close>\<close>

record Button =
  name :: string
  press :: int
  light :: int

text \<open>The buttons, in the order of the source (the order "snakes" down the device).\<close>

definition BUTTONS :: "Button list" where
  "BUTTONS = [
    \<lparr>name = ''Mute'', press = 18, light = 21\<rparr>,
    \<lparr>name = ''Solo'', press = 17, light = 22\<rparr>,
    \<lparr>name = ''Rec'', press = 16, light = 23\<rparr>,
    \<lparr>name = ''Output'', press = 22, light = 17\<rparr>,
    \<lparr>name = ''Chan Up'', press = 21, light = 18\<rparr>,
    \<lparr>name = ''Bank'', press = 20, light = 19\<rparr>,
    \<lparr>name = ''Chan Down'', press = 19, light = 20\<rparr>,
    \<lparr>name = ''Read'', press = 10, light = 13\<rparr>,
    \<lparr>name = ''Write'', press = 9, light = 14\<rparr>,
    \<lparr>name = ''Touch'', press = 8, light = 15\<rparr>,
    \<lparr>name = ''Off'', press = 23, light = 16\<rparr>,
    \<lparr>name = ''Undo'', press = 14, light = 9\<rparr>,
    \<lparr>name = ''Trns'', press = 13, light = 10\<rparr>,
    \<lparr>name = ''Proj'', press = 12, light = 11\<rparr>,
    \<lparr>name = ''Mix'', press = 11, light = 12\<rparr>,
    \<lparr>name = ''Shift'', press = 2, light = 5\<rparr>,
    \<lparr>name = ''Punch'', press = 1, light = 6\<rparr>,
    \<lparr>name = ''User'', press = 0, light = 7\<rparr>,
    \<lparr>name = ''Loop'', press = 15, light = 8\<rparr>,
    \<lparr>name = ''Record'', press = 7, light = 0\<rparr>,
    \<lparr>name = ''Play'', press = 6, light = 1\<rparr>,
    \<lparr>name = ''Stop'', press = 5, light = 2\<rparr>,
    \<lparr>name = ''Fast Fwd'', press = 4, light = 3\<rparr>,
    \<lparr>name = ''Rewind'', press = 3, light = 4\<rparr>
  ]"

text \<open>
  A dict comprehension \<open>{key(x): x for x in xs}\<close> inserts the entries from left to
  right, a later entry replacing an earlier one with the same key.
\<close>

fun dict_insert_all :: "('a \<Rightarrow> 'k) \<Rightarrow> 'a list \<Rightarrow> ('k \<rightharpoonup> 'a) \<Rightarrow> ('k \<rightharpoonup> 'a)" where
  "dict_insert_all key [] m = m"
| "dict_insert_all key (x # xs) m = dict_insert_all key xs (m(key x \<mapsto> x))"

definition dict_of :: "('a \<Rightarrow> 'k) \<Rightarrow> 'a list \<Rightarrow> ('k \<rightharpoonup> 'a)" where
  "dict_of key xs = dict_insert_all key xs Map.empty"

text \<open>
  \<open>_button_from_name = {x.name: x for x in BUTTONS}\<close>, followed by the alias
  \<open>_button_from_name["Rec Arm"] = _button_from_name["Rec"]\<close>. The subscript on the
  right raises \<open>KeyError\<close> when the key is missing, which would stop the module from
  loading: the table is a result.
\<close>

definition dict_button_from_name :: "py_error + (string \<rightharpoonup> Button)" where
  "dict_button_from_name =
     (let m = dict_of name BUTTONS
      in case m ''Rec'' of
           None \<Rightarrow> Inl KeyError
         | Some b \<Rightarrow> Inr (m(''Rec Arm'' \<mapsto> b)))"

text \<open>\<open>_button_from_press = {x.press: x for x in BUTTONS}\<close>\<close>

definition dict_button_from_press :: "int \<rightharpoonup> Button" where
  "dict_button_from_press = dict_of press BUTTONS"

subsection \<open>Case conversion of strings\<close>

definition is_upper :: "char \<Rightarrow> bool" where
  "is_upper c \<longleftrightarrow> 65 \<le> (of_char c :: nat) \<and> (of_char c :: nat) \<le> 90"

definition is_lower :: "char \<Rightarrow> bool" where
  "is_lower c \<longleftrightarrow> 97 \<le> (of_char c :: nat) \<and> (of_char c :: nat) \<le> 122"

definition is_cased :: "char \<Rightarrow> bool" where
  "is_cased c \<longleftrightarrow> is_upper c \<or> is_lower c"

definition to_lower :: "char \<Rightarrow> char" where
  "to_lower c = (if is_upper c then char_of (of_char c + 32 :: nat) else c)"

definition to_upper :: "char \<Rightarrow> char" where
  "to_upper c = (if is_lower c then char_of (of_char c - 32 :: nat) else c)"

text \<open>\<open>str.upper()\<close> and \<open>str.lower()\<close>\<close>

definition upper :: "string \<Rightarrow> string" where
  "upper s = map to_upper s"

definition lower :: "string \<Rightarrow> string" where
  "lower s = map to_lower s"

text \<open>
  \<open>str.title()\<close>: a character that follows a cased character is lower-cased, any other
  character is upper-cased (title-cased); the flag is whether the previous character of
  the input is cased. It starts as false.
\<close>

fun title_from :: "bool \<Rightarrow> string \<Rightarrow> string" where
  "title_from previous_is_cased [] = []"
| "title_from previous_is_cased (c # cs) =
     (if previous_is_cased then to_lower c else to_upper c) # title_from (is_cased c) cs"

definition title :: "string \<Rightarrow> string" where
  "title s = title_from False s"

subsection \<open>Lookups in the registry\<close>

text \<open>
  \<open>button_from_name\<close> subscripts the dict with \<open>name.title()\<close>: a missing key raises
  \<open>KeyError\<close>.
\<close>

definition button_from_name :: "string \<Rightarrow> py_error + Button" where
  "button_from_name n =
     (case dict_button_from_name of
        Inl e \<Rightarrow> Inl e
      | Inr m \<Rightarrow> (case m (title n) of None \<Rightarrow> Inl KeyError | Some b \<Rightarrow> Inr b))"

text \<open>\<open>button_from_press\<close> uses \<open>.get(press, None)\<close>: a missing key is \<open>None\<close>.\<close>

definition button_from_press :: "int \<Rightarrow> Button option" where
  "button_from_press p = dict_button_from_press p"

subsection \<open>The character matrix\<close>

text \<open>
  \<open>CHARACTERS\<close> maps a character to the indices (into \<open>BUTTONS\<close>) of the buttons that
  display it when lit. The keys of the dict literal are distinct, so the first match of
  the association list is the dict's entry.
\<close>

definition CHARACTERS :: "(string \<times> int list) list" where
  "CHARACTERS = [
    (''0'', [0, 1, 3, 6, 7, 9, 10, 11, 13, 14, 15, 18, 20, 21, 22]),
    (''1'', [1, 4, 5, 9, 12, 17, 19, 20, 21, 22]),
    (''2'', [0, 1, 3, 6, 10, 12, 16, 19, 20, 21, 22, 23]),
    (''3'', [0, 1, 3, 6, 9, 11, 15, 18, 20, 21, 22]),
    (''4'', [1, 4, 5, 7, 9, 11, 12, 13, 14, 17, 20, 21]),
    (''5'', [0, 1, 2, 6, 7, 8, 9, 11, 15, 18, 20, 21, 22]),
    (''6'', [0, 1, 2, 6, 7, 8, 9, 11, 14, 15, 18, 20, 21, 22]),
    (''7'', [3, 4, 5, 6, 10, 12, 16, 23]),
    (''8'', [0, 1, 3, 6, 8, 9, 11, 14, 15, 18, 20, 21, 22]),
    (''9'', [0, 1, 3, 6, 8, 9, 10, 11, 15, 18, 20, 21, 22]),
    (''A'', [4, 5, 7, 10, 11, 12, 13, 14, 15, 18, 19, 23]),
    (''B'', [4, 5, 6, 7, 10, 12, 13, 14, 15, 18, 20, 21, 22, 23]),
    (''C'', [4, 5, 7, 10, 14, 15, 18, 20, 21, 22]),
    (''D'', [4, 5, 6, 7, 10, 11, 14, 15, 18, 20, 21, 22, 23]),
    (''E'', [4, 5, 6, 7, 13, 14, 15, 20, 21, 22, 23]),
    (''F'', [4, 5, 6, 7, 13, 14, 15, 23])
  ]"

text \<open>
  Python's \<open>xs[i]\<close> on a list: an index from 0 up to the length reads from the
  front, an index from \<open>-len(xs)\<close> up to -1 reads from the back, and any other index
  raises \<open>IndexError\<close>.
\<close>

definition subscript :: "'a list \<Rightarrow> int \<Rightarrow> py_error + 'a" where
  "subscript xs i =
     (if 0 \<le> i \<and> i < int (length xs) then Inr (xs ! nat i)
      else if i < 0 \<and> 0 \<le> int (length xs) + i then Inr (xs ! nat (int (length xs) + i))
      else Inl IndexError)"

section \<open>The session\<close>

text \<open>
  A MIDI message as \<open>_message_callback\<close> and the senders see it: its type and the
  attributes that the driver reads or sets. \<open>polytouch note value\<close>,
  \<open>control_change control value\<close>, \<open>pitchwheel pitch\<close>; any message of another type
  is \<open>other_message\<close> with the name of its type.
\<close>

datatype message =
    polytouch int int
  | control_change int int
  | pitchwheel int
  | other_message string

text \<open>
  The hooks are abstract methods of \<open>FaderPort\<close>; their bodies belong to the subclass.
  The session records every call of a hook, with its arguments, in the order of the calls.
\<close>

datatype hook_call =
    on_open
  | on_close
  | on_button Button bool
  | on_fader_touch bool
  | on_fader int
  | on_rotary int

text \<open>
  The state of a \<open>FaderPort\<close> object: \<open>self._fader\<close>, \<open>self._msb\<close>, and
  \<open>self.outport\<close>, which is \<open>None\<close> until \<open>open\<close> has run and afterwards the port,
  seen as the list of the messages sent to it so far. \<open>hook_calls\<close> is the record of the
  calls of hooks, \<open>printed\<close> the messages written by \<open>print('Unhandled:', msg)\<close>.
\<close>

record session =
  self_fader :: int
  self_msb :: int
  self_outport :: "message list option"
  hook_calls :: "hook_call list"
  printed :: "message list"

text \<open>\<open>__init__\<close>\<close>

definition init :: session where
  "init = \<lparr>self_fader = 0, self_msb = 0, self_outport = None, hook_calls = [], printed = []\<rparr>"

definition call_hook :: "hook_call \<Rightarrow> session \<Rightarrow> session" where
  "call_hook h s = s\<lparr>hook_calls := hook_calls s @ [h]\<rparr>"

text \<open>
  \<open>open\<close>: the two ports are opened (finding and opening them is the MIDI library's
  part), the callback is registered and \<open>on_open\<close> is called. Nothing has been sent to
  the new output port.
\<close>

definition open_session :: "session \<Rightarrow> session" where
  "open_session s = call_hook on_open (s\<lparr>self_outport := Some []\<rparr>)"

subsection \<open>Inbound messages\<close>

text \<open>
  \<open>_message_callback\<close>. A \<open>Button\<close> is a tuple of three fields and so is always true
  in \<open>if button:\<close>; the test fails exactly when the lookup returned \<open>None\<close>. A
  \<open>polytouch\<close> message whose note is neither a press code nor 127 falls through both
  branches and does nothing.
\<close>

fun message_callback :: "message \<Rightarrow> session \<Rightarrow> session" where
  "message_callback (polytouch note v) s =
     (case button_from_press note of
        Some button \<Rightarrow> call_hook (on_button button (v \<noteq> 0)) s
      | None \<Rightarrow> if note = 127 then call_hook (on_fader_touch (v \<noteq> 0)) s else s)"
| "message_callback (control_change control v) s =
     (if control = 0 then s\<lparr>self_msb := v\<rparr>
      else if control = 32 then
        (let s' = s\<lparr>self_fader := drop_bit 4 (push_bit 7 (self_msb s) OR v)\<rparr>
         in call_hook (on_fader (self_fader s')) s')
      else s\<lparr>printed := printed s @ [control_change control v]\<rparr>)"
| "message_callback (pitchwheel pitch) s =
     call_hook (on_rotary (if pitch < 0 then 1 else - 1)) s"
| "message_callback (other_message t) s = s\<lparr>printed := printed s @ [other_message t]\<rparr>"

text \<open>The messages of a stream are dispatched one after the other.\<close>

fun receive :: "message list \<Rightarrow> session \<Rightarrow> session" where
  "receive [] s = s"
| "receive (m # ms) s = receive ms (message_callback m s)"

subsection \<open>Outbound messages\<close>

text \<open>
  \<open>self.outport.send(msg)\<close>: on a session that was never opened \<open>self.outport\<close> is
  \<open>None\<close> and the attribute access raises \<open>AttributeError\<close>. Building the message
  and delivering it are the MIDI library's part: a message is a value of the datatype, and
  a send on an open port appends it to the messages sent.
\<close>

definition send :: "message \<Rightarrow> session \<Rightarrow> py_error + session" where
  "send msg s =
     (case self_outport s of
        None \<Rightarrow> Inl AttributeError
      | Some sent \<Rightarrow> Inr (s\<lparr>self_outport := Some (sent @ [msg])\<rparr>))"

text \<open>The \<open>fader\<close> property: the getter, then the setter.\<close>

definition fader :: "session \<Rightarrow> int" where
  "fader s = self_fader s"

definition fader_setter :: "int \<Rightarrow> session \<Rightarrow> py_error + session" where
  "fader_setter v s =
     (let s1 = s\<lparr>self_fader := (if 0 < v \<and> v < 1024 then v else 0)\<rparr>
      in case send (control_change 0 (drop_bit 7 (self_fader s1))) s1 of
           Inl e \<Rightarrow> Inl e
         | Inr s2 \<Rightarrow> send (control_change 32 (self_fader s2 AND 0x7F)) s2)"

definition light_on :: "Button \<Rightarrow> session \<Rightarrow> py_error + session" where
  "light_on button s = send (polytouch (light button) 1) s"

definition light_off :: "Button \<Rightarrow> session \<Rightarrow> py_error + session" where
  "light_off button s = send (polytouch (light button) 0) s"

text \<open>
  \<open>char_on\<close>: the loop \<open>for i in CHARACTERS[c.upper()]: self.light_on(BUTTONS[i])\<close>
  stops at the first error.
\<close>

fun char_on_loop :: "int list \<Rightarrow> session \<Rightarrow> py_error + session" where
  "char_on_loop [] s = Inr s"
| "char_on_loop (i # is) s =
     (case subscript BUTTONS i of
        Inl e \<Rightarrow> Inl e
      | Inr button \<Rightarrow>
          (case light_on button s of
             Inl e \<Rightarrow> Inl e
           | Inr s' \<Rightarrow> char_on_loop is s'))"

definition char_on :: "string \<Rightarrow> session \<Rightarrow> py_error + session" where
  "char_on c s =
     (case map_of CHARACTERS (upper c) of
        None \<Rightarrow> Inr s
      | Some glyph \<Rightarrow> char_on_loop glyph s)"

subsection \<open>The round trip of the fader codec\<close>

text \<open>
  The application sets the fader to \<open>v\<close> on the session \<open>s\<close>; the messages that this
  sends are then received by the session \<open>t\<close>, in the order in which they were sent. The
  result is the fader position that \<open>t\<close> holds afterwards, or the error of the setter.
\<close>

definition sent_messages :: "session \<Rightarrow> message list" where
  "sent_messages s = (case self_outport s of None \<Rightarrow> [] | Some sent \<Rightarrow> sent)"

definition fader_round_trip :: "int \<Rightarrow> session \<Rightarrow> session \<Rightarrow> py_error + int" where
  "fader_round_trip v s t =
     (case fader_setter v s of
        Inl e \<Rightarrow> Inl e
      | Inr s' \<Rightarrow>
          Inr (fader (receive (drop (length (sent_messages s)) (sent_messages s')) t)))"

section \<open>Properties of the registry\<close>

lemma dict_insert_all_miss:
  "k \<notin> key ` set xs \<Longrightarrow> dict_insert_all key xs m k = m k"
  by (induction xs arbitrary: m) auto

lemma dict_insert_all_hit:
  "distinct (map key xs) \<Longrightarrow> x \<in> set xs \<Longrightarrow> dict_insert_all key xs m (key x) = Some x"
proof (induction xs arbitrary: m)
  case Nil
  then show ?case by simp
next
  case (Cons a xs)
  show ?case
  proof (cases "x = a")
    case True
    with Cons.prems have "key a \<notin> key ` set xs" by simp
    then show ?thesis using True by (simp add: dict_insert_all_miss)
  next
    case False
    with Cons show ?thesis by simp
  qed
qed

lemma dom_dict_insert_all: "dom (dict_insert_all key xs m) = dom m \<union> key ` set xs"
  by (induction xs arbitrary: m) auto

lemma dict_of_None: "dict_of key xs k = None \<longleftrightarrow> k \<notin> key ` set xs"
proof -
  have "k \<in> dom (dict_of key xs) \<longleftrightarrow> k \<in> key ` set xs"
    by (simp add: dict_of_def dom_dict_insert_all)
  then show ?thesis by (cases "dict_of key xs k") auto
qed

lemma dict_of_Some:
  "distinct (map key xs) \<Longrightarrow> x \<in> set xs \<Longrightarrow> dict_of key xs (key x) = Some x"
  by (simp add: dict_of_def dict_insert_all_hit)

lemma distinct_names: "distinct (map name BUTTONS)"
  by (simp add: BUTTONS_def)

lemma distinct_presses: "distinct (map press BUTTONS)"
  by (simp add: BUTTONS_def)

lemma length_BUTTONS: "length BUTTONS = 24"
  by (simp add: BUTTONS_def)

text \<open>Every name in the table is already in title case, and none is the alias.\<close>

lemma titled_names:
  "list_all (\<lambda>b. title (name b) = name b \<and> name b \<noteq> ''Rec Arm'') BUTTONS"
  by code_simp

lemma Rec_in_BUTTONS: "\<lparr>name = ''Rec'', press = 16, light = 23\<rparr> \<in> set BUTTONS"
  by (simp add: BUTTONS_def)

text \<open>The module loads: the alias finds \<open>"Rec"\<close>.\<close>

lemma dict_button_from_name_eq:
  "dict_button_from_name =
     Inr ((dict_of name BUTTONS)(''Rec Arm'' \<mapsto> \<lparr>name = ''Rec'', press = 16, light = 23\<rparr>))"
  using dict_of_Some [OF distinct_names Rec_in_BUTTONS]
  by (simp add: dict_button_from_name_def)

lemma button_from_name_registered:
  assumes "b \<in> set BUTTONS"
  shows "button_from_name (name b) = Inr b"
proof -
  from assms titled_names have t: "title (name b) = name b" and a: "name b \<noteq> ''Rec Arm''"
    by (auto simp: list_all_iff)
  from assms have "dict_of name BUTTONS (name b) = Some b"
    by (rule dict_of_Some [OF distinct_names])
  with t a show ?thesis
    by (simp add: button_from_name_def dict_button_from_name_eq)
qed

lemma button_from_press_registered:
  "b \<in> set BUTTONS \<Longrightarrow> button_from_press (press b) = Some b"
  by (simp add: button_from_press_def dict_button_from_press_def dict_of_Some [OF distinct_presses])

lemma button_from_press_None: "button_from_press p = None \<longleftrightarrow> p \<notin> press ` set BUTTONS"
  by (simp add: button_from_press_def dict_button_from_press_def dict_of_None)

lemma button_from_name_KeyError:
  "button_from_name n = Inl KeyError \<longleftrightarrow> title n \<notin> insert ''Rec Arm'' (name ` set BUTTONS)"
proof (cases "title n = ''Rec Arm''")
  case True
  then show ?thesis by (simp add: button_from_name_def dict_button_from_name_eq)
next
  case False
  then show ?thesis
    using dict_of_None [of name BUTTONS "title n"]
    by (cases "dict_of name BUTTONS (title n)")
      (simp_all add: button_from_name_def dict_button_from_name_eq)
qed

section \<open>Properties of the case conversions\<close>

lemma is_cased_to_lower: "is_cased (to_lower c) = is_cased c"
  by (auto simp: is_cased_def to_lower_def is_upper_def is_lower_def)

lemma to_lower_to_lower: "to_lower (to_lower c) = to_lower c"
  by (auto simp: to_lower_def is_upper_def is_lower_def)

lemma to_upper_to_lower: "to_upper (to_lower c) = to_upper c"
  by (auto simp: to_upper_def to_lower_def is_upper_def is_lower_def)

lemma title_from_lower: "title_from p (map to_lower s) = title_from p s"
  by (induction s arbitrary: p) (simp_all add: is_cased_to_lower to_lower_to_lower to_upper_to_lower)

text \<open>The title case and the upper case of a string depend on its lower case only.\<close>

lemma title_lower: "title (lower s) = title s"
  by (simp add: title_def lower_def title_from_lower)

lemma upper_lower: "upper (lower s) = upper s"
  by (simp add: upper_def lower_def to_upper_to_lower)

lemma title_cong: "lower x = lower y \<Longrightarrow> title x = title y"
  by (metis title_lower)

lemma upper_cong: "lower x = lower y \<Longrightarrow> upper x = upper y"
  by (metis upper_lower)

section \<open>Properties of the fader codec\<close>

text \<open>The two fields that the setter sends hold the whole value.\<close>

lemma fader_fields_join: "push_bit 7 (drop_bit 7 v) OR (v AND 0x7F) = (v::int)"
proof -
  have "v AND 0x7F = take_bit 7 v"
    by (simp add: take_bit_eq_mask mask_eq_exp_minus_1)
  then show ?thesis
    by (simp add: bit_eq_iff bit_simps) (metis add_diff_inverse_nat not_less)
qed

lemma fader_setter_open:
  assumes "self_outport s = Some sent"
  shows "fader_setter v s =
    Inr (s\<lparr>self_fader := (if 0 < v \<and> v < 1024 then v else 0),
           self_outport := Some (sent @
             [control_change 0 (drop_bit 7 (if 0 < v \<and> v < 1024 then v else 0)),
              control_change 32 ((if 0 < v \<and> v < 1024 then v else 0) AND 0x7F)])\<rparr>)"
  using assms by (simp add: fader_setter_def send_def Let_def)

lemma receive_field_B:
  "receive (map (control_change 32) bs) s =
     (if bs = [] then s
      else s\<lparr>self_fader := drop_bit 4 (push_bit 7 (self_msb s) OR last bs),
             hook_calls := hook_calls s @
               map (\<lambda>b. on_fader (drop_bit 4 (push_bit 7 (self_msb s) OR b))) bs\<rparr>)"
proof (induction bs arbitrary: s)
  case Nil
  show ?case by simp
next
  case (Cons b bs)
  show ?case by (simp add: Cons.IH call_hook_def)
qed

section \<open>The dispatcher and the fader codec\<close>

text \<open>
  C1, as the code has it. A session that receives \<open>control_change\<close> with control 0 and
  value 10 and then \<open>control_change\<close> with control 32 and value 64 calls \<open>on_fader\<close>
  exactly once; the position is \<open>(10 << 7 | 64) >> 4\<close>, which is 84 (not 80), and it
  becomes the cached fader position. In general the position is
  \<open>(pending_msb << 7 | value) >> 4\<close>. On a session just opened the calls of hooks are
  \<open>on_open\<close> and that one \<open>on_fader\<close>.
\<close>

theorem C1_end_to_end_fader:
  "message_callback (control_change 32 b) s =
     s\<lparr>self_fader := drop_bit 4 (push_bit 7 (self_msb s) OR b),
       hook_calls := hook_calls s @ [on_fader (drop_bit 4 (push_bit 7 (self_msb s) OR b))]\<rparr>
   \<and> receive [control_change 0 a, control_change 32 b] s =
     s\<lparr>self_msb := a,
       self_fader := drop_bit 4 (push_bit 7 a OR b),
       hook_calls := hook_calls s @ [on_fader (drop_bit 4 (push_bit 7 a OR b))]\<rparr>
   \<and> receive [control_change 0 10, control_change 32 64] s =
     s\<lparr>self_msb := 10, self_fader := 84, hook_calls := hook_calls s @ [on_fader 84]\<rparr>
   \<and> hook_calls (receive [control_change 0 10, control_change 32 64] (open_session init)) =
     [on_open, on_fader 84]
   \<and> fader (receive [control_change 0 10, control_change 32 64] (open_session init)) = 84"
  by (simp add: call_hook_def open_session_def init_def fader_def)

text \<open>
  C1 as stated fails: after the two messages of the scenario the cached position is not
  80, and \<open>on_fader\<close> was not called with 80.
\<close>

theorem C1_counterexample:
  "self_fader (receive [control_change 0 10, control_change 32 64] (open_session init)) \<noteq> 80
   \<and> on_fader 80 \<notin>
       set (hook_calls (receive [control_change 0 10, control_change 32 64] (open_session init)))"
  by (simp add: call_hook_def open_session_def init_def)

text \<open>
  C2, as the code has it. For every \<open>v\<close> from 0 to 1023, setting the fader to \<open>v\<close> on an
  open session and decoding the two fields that this sends gives \<open>v >> 4\<close> (not
  \<open>(v >> 4) << 4\<close>).
\<close>

theorem C2_fader_round_trip:
  assumes "0 \<le> v" and "v \<le> 1023" and "self_outport s = Some sent"
  shows "fader_round_trip v s t = Inr (drop_bit 4 v)"
proof -
  from assms(1,2) have c: "(if 0 < v \<and> v < 1024 then v else 0) = v"
    by simp
  have "fader_setter v s =
      Inr (s\<lparr>self_fader := v,
             self_outport := Some (sent @
               [control_change 0 (drop_bit 7 v), control_change 32 (v AND 0x7F)])\<rparr>)"
    using fader_setter_open [OF assms(3), of v] unfolding c .
  then show ?thesis
    using assms(3)
    by (simp add: fader_round_trip_def sent_messages_def fader_def call_hook_def fader_fields_join)
qed

theorem C2_fader_round_trip_witness:
  "fader_round_trip 0 (open_session init) init = Inr 0
   \<and> fader_round_trip 1 (open_session init) init = Inr 0
   \<and> fader_round_trip 127 (open_session init) init = Inr 7
   \<and> fader_round_trip 128 (open_session init) init = Inr 8
   \<and> fader_round_trip 1023 (open_session init) init = Inr 63"
proof -
  have o: "self_outport (open_session init) = Some []"
    by (simp add: open_session_def call_hook_def)
  show ?thesis
    using C2_fader_round_trip [of 0, OF _ _ o, of init]
      C2_fader_round_trip [of 1, OF _ _ o, of init]
      C2_fader_round_trip [of 127, OF _ _ o, of init]
      C2_fader_round_trip [of 128, OF _ _ o, of init]
      C2_fader_round_trip [of 1023, OF _ _ o, of init]
    by simp
qed

text \<open>
  C2 as stated fails at the boundary value 1023: the round trip gives 63, and
  \<open>(1023 >> 4) << 4\<close> is 1008.
\<close>

theorem C2_counterexample:
  "fader_round_trip 1023 (open_session init) init \<noteq> Inr (push_bit 4 (drop_bit 4 1023))"
  by (simp add: fader_round_trip_def fader_setter_def send_def sent_messages_def fader_def
      open_session_def call_hook_def init_def)

text \<open>
  C3. A \<open>control_change\<close> message with control 0 only stores its value as the pending
  most significant byte: the cached fader position, the calls of hooks and everything else
  stay as they were. A \<open>control_change\<close> message with control 32 leaves the pending byte
  alone, so every one of several such messages in a row is combined with the same byte.
\<close>

theorem C3_sticky_msb:
  "message_callback (control_change 0 v) s = s\<lparr>self_msb := v\<rparr>
   \<and> self_fader (message_callback (control_change 0 v) s) = self_fader s
   \<and> hook_calls (message_callback (control_change 0 v) s) = hook_calls s
   \<and> self_msb (message_callback (control_change 32 b) s) = self_msb s
   \<and> self_msb (receive (map (control_change 32) bs) s) = self_msb s
   \<and> hook_calls (receive (map (control_change 32) bs) s) =
       hook_calls s @ map (\<lambda>b. on_fader (drop_bit 4 (push_bit 7 (self_msb s) OR b))) bs"
  by (simp add: receive_field_B call_hook_def)

text \<open>
  C6. A \<open>pitchwheel\<close> message calls \<open>on_rotary\<close> exactly once, with 1 when the pitch is
  negative and with -1 otherwise: 1 for pitch -5, -1 for pitch 5 and -1 for pitch 0.
\<close>

theorem C6_rotary_sign:
  "message_callback (pitchwheel pitch) s =
     s\<lparr>hook_calls := hook_calls s @ [on_rotary (if pitch < 0 then 1 else - 1)]\<rparr>
   \<and> message_callback (pitchwheel (- 5)) s = s\<lparr>hook_calls := hook_calls s @ [on_rotary 1]\<rparr>
   \<and> message_callback (pitchwheel 5) s = s\<lparr>hook_calls := hook_calls s @ [on_rotary (- 1)]\<rparr>
   \<and> message_callback (pitchwheel 0) s = s\<lparr>hook_calls := hook_calls s @ [on_rotary (- 1)]\<rparr>"
  by (simp add: call_hook_def)

text \<open>
  C4. On an open session, setting the fader to a value that is not strictly between 0
  and 1024 (0, 1024 and the negative values among them) caches 0, and setting it to a
  value strictly between 0 and 1024 caches that value. Both times two messages are sent,
  control 0 with \<open>cached >> 7\<close> and then control 32 with \<open>cached & 0x7F\<close>, and the getter
  returns the cached position afterwards.
\<close>

theorem C4_fader_setter:
  assumes "self_outport s = Some sent"
  shows "(\<not> (0 < v \<and> v < 1024) \<longrightarrow>
            fader_setter v s =
              Inr (s\<lparr>self_fader := 0,
                     self_outport := Some (sent @ [control_change 0 0, control_change 32 0])\<rparr>))
       \<and> (0 < v \<and> v < 1024 \<longrightarrow>
            fader_setter v s =
              Inr (s\<lparr>self_fader := v,
                     self_outport := Some (sent @
                       [control_change 0 (drop_bit 7 v), control_change 32 (v AND 0x7F)])\<rparr>))
       \<and> (\<exists>s'. fader_setter v s = Inr s'
             \<and> fader s' = (if 0 < v \<and> v < 1024 then v else 0)
             \<and> self_outport s' = Some (sent @
                 [control_change 0 (drop_bit 7 (fader s')),
                  control_change 32 (fader s' AND 0x7F)]))"
  using fader_setter_open [OF assms, of v] by (simp add: fader_def)

theorem C4_fader_setter_witness:
  "self_outport (open_session init) = Some []
   \<and> fader_setter 0 (open_session init) =
       Inr ((open_session init)\<lparr>self_fader := 0,
              self_outport := Some [control_change 0 0, control_change 32 0]\<rparr>)
   \<and> fader_setter 1024 (open_session init) =
       Inr ((open_session init)\<lparr>self_fader := 0,
              self_outport := Some [control_change 0 0, control_change 32 0]\<rparr>)
   \<and> fader_setter (- 3) (open_session init) =
       Inr ((open_session init)\<lparr>self_fader := 0,
              self_outport := Some [control_change 0 0, control_change 32 0]\<rparr>)
   \<and> fader_setter 1023 (open_session init) =
       Inr ((open_session init)\<lparr>self_fader := 1023,
              self_outport := Some [control_change 0 7, control_change 32 127]\<rparr>)"
proof -
  have o: "self_outport (open_session init) = Some []"
    by (simp add: open_session_def call_hook_def)
  show ?thesis
    using o C4_fader_setter [OF o, of 0] C4_fader_setter [OF o, of 1024]
      C4_fader_setter [OF o, of "- 3"] C4_fader_setter [OF o, of 1023]
    by simp
qed

text \<open>
  C5. No button has the press code 127, so \<open>button_from_press 127\<close> is \<open>None\<close> (a
  result, not an error), and a \<open>polytouch\<close> message with note 127 is never a button
  event: the dispatcher calls \<open>on_fader_touch\<close> with \<open>value != 0\<close>, once, and no other
  hook.
\<close>

theorem C5_fader_touch_sentinel:
  "button_from_press 127 = None
   \<and> 127 \<notin> press ` set BUTTONS
   \<and> message_callback (polytouch 127 v) s =
       s\<lparr>hook_calls := hook_calls s @ [on_fader_touch (v \<noteq> 0)]\<rparr>"
proof -
  have p: "127 \<notin> press ` set BUTTONS"
    by (simp add: BUTTONS_def)
  then have "button_from_press 127 = None"
    by (simp add: button_from_press_None)
  with p show ?thesis by (simp add: call_hook_def)
qed

section \<open>The registry\<close>

text \<open>
  C7. There are 24 buttons, and for each of them the lookup by its name returns the
  button itself, and the lookup by the press code of that result returns it again.
\<close>

theorem C7_registry_round_trip:
  "length BUTTONS = 24
   \<and> (\<forall>b \<in> set BUTTONS.
        button_from_name (name b) = Inr b \<and> button_from_press (press b) = Some b)"
  by (simp add: length_BUTTONS button_from_name_registered button_from_press_registered)

theorem C7_registry_round_trip_witness:
  "\<lparr>name = ''Mute'', press = 18, light = 21\<rparr> \<in> set BUTTONS
   \<and> button_from_name ''Mute'' = Inr \<lparr>name = ''Mute'', press = 18, light = 21\<rparr>
   \<and> button_from_press 18 = Some \<lparr>name = ''Mute'', press = 18, light = 21\<rparr>"
proof -
  have m: "\<lparr>name = ''Mute'', press = 18, light = 21\<rparr> \<in> set BUTTONS"
    by (simp add: BUTTONS_def)
  with C7_registry_round_trip
  have "button_from_name (name \<lparr>name = ''Mute'', press = 18, light = 21\<rparr>) =
          Inr \<lparr>name = ''Mute'', press = 18, light = 21\<rparr>
        \<and> button_from_press (press \<lparr>name = ''Mute'', press = 18, light = 21\<rparr>) =
          Some \<lparr>name = ''Mute'', press = 18, light = 21\<rparr>"
    by blast
  with m show ?thesis by simp
qed

text \<open>
  C8. The lookup by name sees its argument through \<open>title()\<close> only, so two names with
  the same letters in any case give the same result; every casing of "Rec Arm" and every
  casing of "Rec" give the button \<open>Rec\<close>; and the lookup raises \<open>KeyError\<close> (the spec's
  NotFound) exactly when the name in title case is neither the name of a button nor the
  alias.
\<close>

theorem C8_name_lookup:
  "(lower x = lower y \<longrightarrow> button_from_name x = button_from_name y)
   \<and> (lower x = lower ''Rec Arm'' \<and> lower y = lower ''Rec'' \<longrightarrow>
        button_from_name x = Inr \<lparr>name = ''Rec'', press = 16, light = 23\<rparr>
        \<and> button_from_name y = Inr \<lparr>name = ''Rec'', press = 16, light = 23\<rparr>)
   \<and> (button_from_name n = Inl KeyError \<longleftrightarrow>
        title n \<notin> insert ''Rec Arm'' (name ` set BUTTONS))
   \<and> (title n \<in> insert ''Rec Arm'' (name ` set BUTTONS) \<longrightarrow>
        (\<exists>b \<in> set BUTTONS. button_from_name n = Inr b))"
proof -
  have same: "button_from_name x = button_from_name y" if "lower x = lower y" for x y
    unfolding button_from_name_def title_cong [OF that] by (rule refl)
  have arm: "button_from_name ''Rec Arm'' = Inr \<lparr>name = ''Rec'', press = 16, light = 23\<rparr>"
    by code_simp
  have rec: "button_from_name ''Rec'' = Inr \<lparr>name = ''Rec'', press = 16, light = 23\<rparr>"
    by code_simp
  have found: "\<exists>b \<in> set BUTTONS. button_from_name n = Inr b"
    if "title n \<in> insert ''Rec Arm'' (name ` set BUTTONS)"
  proof (cases "title n = ''Rec Arm''")
    case True
    then show ?thesis
      using Rec_in_BUTTONS by (auto simp: button_from_name_def dict_button_from_name_eq)
  next
    case False
    with that obtain b where b: "b \<in> set BUTTONS" "title n = name b" by auto
    then have "dict_of name BUTTONS (title n) = Some b"
      by (simp add: dict_of_Some [OF distinct_names])
    with False b(1) show ?thesis
      by (auto simp: button_from_name_def dict_button_from_name_eq)
  qed
  show ?thesis
    using same [of x y] same [of x "''Rec Arm''"] same [of y "''Rec''"] arm rec found
    by (simp add: button_from_name_KeyError)
qed

theorem C8_name_lookup_witness:
  "lower ''rEC aRM'' = lower ''Rec Arm'' \<and> lower ''REC'' = lower ''Rec''
   \<and> button_from_name ''rEC aRM'' = button_from_name ''REC''
   \<and> button_from_name ''REC'' = Inr \<lparr>name = ''Rec'', press = 16, light = 23\<rparr>
   \<and> title ''pan'' \<notin> insert ''Rec Arm'' (name ` set BUTTONS)
   \<and> button_from_name ''pan'' = Inl KeyError
   \<and> title ''fast fwd'' \<in> insert ''Rec Arm'' (name ` set BUTTONS)
   \<and> (\<exists>b \<in> set BUTTONS. button_from_name ''fast fwd'' = Inr b)"
proof -
  have a: "lower ''rEC aRM'' = lower ''Rec Arm''" and r: "lower ''REC'' = lower ''Rec''"
    by code_simp+
  have p: "title ''pan'' \<notin> insert ''Rec Arm'' (name ` set BUTTONS)"
    by code_simp
  have f: "title ''fast fwd'' \<in> insert ''Rec Arm'' (name ` set BUTTONS)"
    by code_simp
  show ?thesis
    using a r p f C8_name_lookup [of "''rEC aRM''" "''REC''" "''pan''"]
      C8_name_lookup [of "''rEC aRM''" "''REC''" "''fast fwd''"]
    by simp
qed

section \<open>The character matrix\<close>

lemma subscript_BUTTONS:
  "0 \<le> i \<Longrightarrow> i < 24 \<Longrightarrow> subscript BUTTONS i = Inr (BUTTONS ! nat i)"
  by (simp add: subscript_def length_BUTTONS)

lemma char_on_loop_open:
  "\<forall>i \<in> set glyph. 0 \<le> i \<and> i < 24 \<Longrightarrow> self_outport s = Some sent \<Longrightarrow>
   char_on_loop glyph s =
     Inr (s\<lparr>self_outport :=
              Some (sent @ map (\<lambda>i. polytouch (light (BUTTONS ! nat i)) 1) glyph)\<rparr>)"
proof (induction glyph arbitrary: s sent)
  case Nil
  then show ?case by simp
next
  case (Cons i glyph)
  from Cons.prems have i: "0 \<le> i" "i < 24" and rest: "\<forall>i \<in> set glyph. 0 \<le> i \<and> i < 24"
    by simp_all
  let ?m = "polytouch (light (BUTTONS ! nat i)) 1"
  have "char_on_loop (i # glyph) s =
          char_on_loop glyph (s\<lparr>self_outport := Some (sent @ [?m])\<rparr>)"
    using Cons.prems(2) by (simp add: subscript_BUTTONS [OF i] light_on_def send_def)
  also have "\<dots> = Inr (s\<lparr>self_outport :=
                Some (sent @ map (\<lambda>i. polytouch (light (BUTTONS ! nat i)) 1) (i # glyph))\<rparr>)"
    using Cons.IH [OF rest, of "s\<lparr>self_outport := Some (sent @ [?m])\<rparr>" "sent @ [?m]"]
    by simp
  finally show ?case .
qed

lemma char_on_loop_closed:
  "\<forall>i \<in> set glyph. 0 \<le> i \<and> i < 24 \<Longrightarrow> self_outport s = None \<Longrightarrow>
   char_on_loop glyph s = (if glyph = [] then Inr s else Inl AttributeError)"
  by (cases glyph) (simp_all add: subscript_BUTTONS light_on_def send_def)

lemma CHARACTERS_in_range:
  "\<forall>(k, glyph) \<in> set CHARACTERS. \<forall>i \<in> set glyph. 0 \<le> i \<and> i < 24"
  by (simp add: CHARACTERS_def)

lemma glyph_in_range:
  assumes "map_of CHARACTERS k = Some glyph"
  shows "\<forall>i \<in> set glyph. 0 \<le> i \<and> i < 24"
proof -
  from assms have "(k, glyph) \<in> set CHARACTERS"
    by (rule map_of_SomeD)
  with CHARACTERS_in_range show ?thesis by blast
qed

text \<open>
  C9. On an open session \<open>char_on('0')\<close> sends one light-on message for each of the 15
  indices listed for '0', to the light code of the button at that index, in the order of
  the list, and nothing else. Two arguments with the same letters in any case give the
  same result. A character with no entry, such as 'g', sends nothing and raises nothing,
  on any session.
\<close>

theorem C9_char_on:
  "map_of CHARACTERS ''0'' = Some [0, 1, 3, 6, 7, 9, 10, 11, 13, 14, 15, 18, 20, 21, 22]
   \<and> length [0, 1, 3, 6, 7, 9, 10, 11, 13, 14, 15, 18, 20, 21, 22 :: int] = 15
   \<and> (self_outport s = Some sent \<longrightarrow>
        char_on ''0'' s =
          Inr (s\<lparr>self_outport := Some (sent @
                 map (\<lambda>i. polytouch (light (BUTTONS ! i)) 1)
                   [0, 1, 3, 6, 7, 9, 10, 11, 13, 14, 15, 18, 20, 21, 22])\<rparr>)
        \<and> char_on ''0'' s =
          Inr (s\<lparr>self_outport := Some (sent @
                 [polytouch 21 1, polytouch 22 1, polytouch 17 1, polytouch 20 1,
                  polytouch 13 1, polytouch 15 1, polytouch 16 1, polytouch 9 1,
                  polytouch 11 1, polytouch 12 1, polytouch 5 1, polytouch 8 1,
                  polytouch 1 1, polytouch 2 1, polytouch 3 1])\<rparr>))
   \<and> (lower c = lower c' \<longrightarrow> char_on c s = char_on c' s)
   \<and> (map_of CHARACTERS (upper c) = None \<longrightarrow> char_on c s = Inr s)
   \<and> char_on ''g'' s = Inr s"
proof -
  have zero: "map_of CHARACTERS ''0'' =
      Some [0, 1, 3, 6, 7, 9, 10, 11, 13, 14, 15, 18, 20, 21, 22]"
    by (simp add: CHARACTERS_def)
  have up0: "upper ''0'' = ''0''"
    by code_simp
  have upg: "map_of CHARACTERS (upper ''g'') = None"
    by code_simp
  have loop: "char_on ''0'' s =
      Inr (s\<lparr>self_outport := Some (sent @
             map (\<lambda>i. polytouch (light (BUTTONS ! nat i)) 1)
               [0, 1, 3, 6, 7, 9, 10, 11, 13, 14, 15, 18, 20, 21, 22])\<rparr>)"
    if "self_outport s = Some sent"
    using char_on_loop_open [OF glyph_in_range [OF zero] that]
    by (simp add: char_on_def up0 zero)
  have lights: "map (\<lambda>i. polytouch (light (BUTTONS ! i)) 1)
        [0, 1, 3, 6, 7, 9, 10, 11, 13, 14, 15, 18, 20, 21, 22] =
      [polytouch 21 1, polytouch 22 1, polytouch 17 1, polytouch 20 1,
       polytouch 13 1, polytouch 15 1, polytouch 16 1, polytouch 9 1,
       polytouch 11 1, polytouch 12 1, polytouch 5 1, polytouch 8 1,
       polytouch 1 1, polytouch 2 1, polytouch 3 1]"
    by (simp add: BUTTONS_def)
  have same: "char_on c s = char_on c' s" if "lower c = lower c'"
    unfolding char_on_def upper_cong [OF that] by (rule refl)
  have none: "char_on c s = Inr s" if "map_of CHARACTERS (upper c) = None" for c
    using that by (simp add: char_on_def)
  from loop lights have "char_on ''0'' s =
      Inr (s\<lparr>self_outport := Some (sent @
             map (\<lambda>i. polytouch (light (BUTTONS ! i)) 1)
               [0, 1, 3, 6, 7, 9, 10, 11, 13, 14, 15, 18, 20, 21, 22])\<rparr>)"
    if "self_outport s = Some sent"
    using that by simp
  with zero lights same none none [OF upg] show ?thesis
    by simp
qed

theorem C9_char_on_witness:
  "self_outport (open_session init) = Some []
   \<and> char_on ''0'' (open_session init) =
       Inr ((open_session init)\<lparr>self_outport := Some
              [polytouch 21 1, polytouch 22 1, polytouch 17 1, polytouch 20 1,
               polytouch 13 1, polytouch 15 1, polytouch 16 1, polytouch 9 1,
               polytouch 11 1, polytouch 12 1, polytouch 5 1, polytouch 8 1,
               polytouch 1 1, polytouch 2 1, polytouch 3 1]\<rparr>)
   \<and> lower ''a'' = lower ''A''
   \<and> char_on ''a'' (open_session init) = char_on ''A'' (open_session init)
   \<and> map_of CHARACTERS (upper ''x'') = None
   \<and> char_on ''x'' (open_session init) = Inr (open_session init)"
proof -
  have o: "self_outport (open_session init) = Some []"
    by (simp add: open_session_def call_hook_def)
  have a: "lower ''a'' = lower ''A''"
    by code_simp
  have x: "map_of CHARACTERS (upper ''x'') = None"
    by code_simp
  show ?thesis
    using o a x C9_char_on [of "open_session init" "[]" "''a''" "''A''"]
      C9_char_on [of "open_session init" "[]" "''x''" "''x''"]
    by simp
qed

text \<open>
  C10. Every index of every glyph of \<open>CHARACTERS\<close> is at least 0 and below 24, and
  \<open>BUTTONS\<close> has 24 entries. So \<open>char_on\<close> never raises \<open>IndexError\<close>, whatever the
  string and the session, and on an open session it returns normally for every string.
\<close>

theorem C10_glyphs_in_bounds:
  "(\<forall>(k, glyph) \<in> set CHARACTERS. \<forall>i \<in> set glyph. 0 \<le> i \<and> i < 24)
   \<and> length BUTTONS = 24
   \<and> char_on c s \<noteq> Inl IndexError
   \<and> (self_outport s = Some sent \<longrightarrow> (\<exists>s'. char_on c s = Inr s'))"
proof -
  have ok: "\<exists>s'. char_on c s = Inr s'" if "self_outport s = Some sent"
  proof (cases "map_of CHARACTERS (upper c)")
    case None
    then show ?thesis by (simp add: char_on_def)
  next
    case (Some glyph)
    with char_on_loop_open [OF glyph_in_range [OF Some] that] show ?thesis
      by (simp add: char_on_def)
  qed
  have no_index_error: "char_on c s \<noteq> Inl IndexError"
  proof (cases "self_outport s")
    case None
    show ?thesis
    proof (cases "map_of CHARACTERS (upper c)")
      case None
      then show ?thesis by (simp add: char_on_def)
    next
      case (Some glyph)
      with char_on_loop_closed [OF glyph_in_range [OF Some] \<open>self_outport s = None\<close>]
      show ?thesis by (simp add: char_on_def)
    qed
  next
    case (Some out)
    show ?thesis
    proof (cases "map_of CHARACTERS (upper c)")
      case None
      then show ?thesis by (simp add: char_on_def)
    next
      case (Some glyph)
      with char_on_loop_open [OF glyph_in_range [OF Some] \<open>self_outport s = Some out\<close>]
      show ?thesis by (simp add: char_on_def)
    qed
  qed
  from ok no_index_error show ?thesis
    by (simp add: CHARACTERS_in_range length_BUTTONS)
qed

theorem C10_glyphs_in_bounds_witness:
  "(''7'', [3, 4, 5, 6, 10, 12, 16, 23]) \<in> set CHARACTERS
   \<and> list_all (\<lambda>i. 0 \<le> i \<and> i < 24) [3, 4, 5, 6, 10, 12, 16, 23 :: int]
   \<and> self_outport (open_session init) = Some []
   \<and> (\<exists>s'. char_on ''7'' (open_session init) = Inr s')
   \<and> char_on ''7'' init \<noteq> Inl IndexError"
proof -
  have o: "self_outport (open_session init) = Some []"
    by (simp add: open_session_def call_hook_def)
  have m: "(''7'', [3, 4, 5, 6, 10, 12, 16, 23]) \<in> set CHARACTERS"
    by (simp add: CHARACTERS_def)
  show ?thesis
    using o m C10_glyphs_in_bounds [of "''7''" "open_session init" "[]"]
      C10_glyphs_in_bounds [of "''7''" init "[]"]
    by simp
qed

end
